theory Spec2Isabelle
  imports Main "HOL-Library.Word"
begin

section \<open>Launch.cpp: the guarded main function of the engine\<close>

text \<open>
  The file under verification defines the four thin wrappers \<open>EnginePreInit\<close>,
  \<open>EngineInit\<close>, \<open>EngineTick\<close>, \<open>EngineExit\<close> around the global \<open>GEngineLoop\<close>, and
  \<open>GuardedMain\<close>, which sequences them. The engine loop itself, the command-line
  parser, the debugger query, the delegates and the exit-request flag live in other
  modules: they are parameters of the model. Every call that \<open>GuardedMain\<close> makes is
  recorded, in program order, in a trace of events, so that statements about "how
  often" and "before/after" are statements about that trace.
\<close>

subsection \<open>Data\<close>

type_synonym int32 = "32 word"

text \<open>
  The process-wide variables the sequencer shares with its collaborators: the flag
  behind \<open>IsEngineExitRequested()\<close> / \<open>RequestEngineExit()\<close>, the global
  \<open>GUELibraryOverrideSettings.bIsEmbedded\<close>, and everything else the engine owns, which
  stays abstract. All of them are plain globals: any collaborator may write them, and
  the sequencer sees the value they have at the moment it reads them.
\<close>

record 'e process =
  GIsRequestingExit :: bool
  bIsEmbedded :: bool
  engine :: 'e

text \<open>The objects with a destructor that \<open>GuardedMain\<close> declares, in source order.\<close>

datatype scoped = TaskTagScope | CleanupGuard | SlowTask

datatype event =
    Activity string            \<comment> \<open>\<open>FTrackedActivity::GetEngineActivity().Update\<close>\<close>
  | Acquire scoped             \<comment> \<open>a scoped object is constructed\<close>
  | Release scoped             \<comment> \<open>its destructor starts\<close>
  | SleepPoll                  \<comment> \<open>\<open>FPlatformProcess::Sleep(0.1f)\<close>\<close>
  | DebugBreak                 \<comment> \<open>\<open>UE_DEBUG_BREAK()\<close>\<close>
  | BootTiming string          \<comment> \<open>\<open>BootTimingPoint\<close>\<close>
  | PreMainInitBroadcast       \<comment> \<open>\<open>GetPreMainInitDelegate().Broadcast()\<close>\<close>
  | MiniDumpFilename           \<comment> \<open>the \<open>Strcpy\<close> into \<open>MiniDumpFilenameW\<close>\<close>
  | CallPreInit                \<comment> \<open>\<open>GEngineLoop.PreInit\<close>\<close>
  | Progress nat               \<comment> \<open>percentage shown by a slow task\<close>
  | CallInit                   \<comment> \<open>\<open>GEngineLoop.Init\<close>\<close>
  | CallEditorInit             \<comment> \<open>\<open>EditorInit(GEngineLoop)\<close>\<close>
  | InitTimeLogged             \<comment> \<open>\<open>UE_LOG\<close> and \<open>ACCUM_LOADTIME\<close> of the init time\<close>
  | DumpBootTiming
  | QueryExit bool             \<comment> \<open>\<open>IsEngineExitRequested()\<close> and what it returned\<close>
  | CallTick                   \<comment> \<open>\<open>GEngineLoop.Tick\<close>\<close>
  | Bookmark string            \<comment> \<open>\<open>TRACE_BOOKMARK\<close>\<close>
  | CallEditorExit             \<comment> \<open>\<open>EditorExit()\<close>\<close>
  | CallRequestExit string     \<comment> \<open>\<open>RequestEngineExit(reason)\<close>\<close>
  | CallExit                   \<comment> \<open>\<open>GEngineLoop.Exit\<close>\<close>

text \<open>The state of one run: the process variables and the calls made so far.\<close>

record 'e run =
  proc :: "'e process"
  trace :: "event list"

text \<open>
  What the file takes from other modules. Each operation may change the process
  variables in any way (a tick may request exit, for instance); none can touch the
  trace, which is the observer's. \<open>PreInit_frames\<close> is the work that \<open>GEngineLoop.PreInit\<close>
  enters, step by step, into the slow task it runs for itself.
\<close>

record 'e collaborators =
  FParse_Param :: "string \<Rightarrow> string \<Rightarrow> bool"
  IsDebuggerPresent :: "'e process \<Rightarrow> bool"
  Sleep :: "'e process \<Rightarrow> 'e process"
  PreMainInitDelegate :: "'e process \<Rightarrow> 'e process"
  GEngineLoop_PreInit :: "string \<Rightarrow> 'e process \<Rightarrow> int32 \<times> 'e process"
  PreInit_frames :: "string \<Rightarrow> 'e process \<Rightarrow> nat list"
  GEngineLoop_Init :: "'e process \<Rightarrow> int32 \<times> 'e process"
  GEngineLoop_Tick :: "'e process \<Rightarrow> 'e process"
  GEngineLoop_Exit :: "'e process \<Rightarrow> 'e process"
  GIsEditor :: "'e process \<Rightarrow> bool"
  EditorInit :: "'e process \<Rightarrow> int32 \<times> 'e process"
  EditorExit :: "'e process \<Rightarrow> 'e process"

text \<open>The preprocessor switches the function is compiled under.\<close>

record config =
  UE_BUILD_SHIPPING :: bool
  WITH_EDITOR :: bool
  PLATFORM_WINDOWS :: bool

subsection \<open>Primitive steps\<close>

definition emit :: "event \<Rightarrow> 'e run \<Rightarrow> 'e run" where
  "emit ev s = s\<lparr>trace := trace s @ [ev]\<rparr>"

definition call :: "event \<Rightarrow> ('e process \<Rightarrow> 'e process) \<Rightarrow> 'e run \<Rightarrow> 'e run" where
  "call ev f s = \<lparr>proc = f (proc s), trace = trace s @ [ev]\<rparr>"

definition call_int32 ::
  "event \<Rightarrow> ('e process \<Rightarrow> int32 \<times> 'e process) \<Rightarrow> 'e run \<Rightarrow> int32 \<times> 'e run" where
  "call_int32 ev f s =
     (case f (proc s) of (ErrorLevel, g) \<Rightarrow> (ErrorLevel, \<lparr>proc = g, trace = trace s @ [ev]\<rparr>))"

text \<open>
  Modelled from the spec: \<open>IsEngineExitRequested\<close> is declared in the core module, not
  in this file. The spec describes a process-wide "exit requested" query/set pair
  over one boolean; this is the query, which reads the flag. The model also records
  that it was asked, and the answer.
\<close>

definition IsEngineExitRequested :: "'e run \<Rightarrow> bool \<times> 'e run" where
  "IsEngineExitRequested s =
     (GIsRequestingExit (proc s), emit (QueryExit (GIsRequestingExit (proc s))) s)"

text \<open>
  Modelled from the spec: \<open>RequestEngineExit\<close> is declared in the core module, not in
  this file. It is the "set" of the query/set pair: the exit request becomes true,
  whatever it was. The reason is only logged.
\<close>

definition RequestEngineExit :: "string \<Rightarrow> 'e run \<Rightarrow> 'e run" where
  "RequestEngineExit reason s =
     call (CallRequestExit reason) (\<lambda>g. g\<lparr>GIsRequestingExit := True\<rparr>) s"

text \<open>
  Modelled from the spec: \<open>FScopedSlowTask\<close> is declared in the core module, not in
  this file. The spec describes a reserved slice of a budget of work units that is
  consumed as the phase advances and never exceeds what was reserved.
\<close>

record slow_task =
  TotalAmountOfWork :: nat
  CompletedWork :: nat

text \<open>
  Modelled from the spec: the constructor of \<open>FScopedSlowTask\<close>, missing like the class.
  It reserves the budget; nothing is consumed yet.
\<close>

definition FScopedSlowTask :: "nat \<Rightarrow> slow_task" where
  "FScopedSlowTask amount = \<lparr>TotalAmountOfWork = amount, CompletedWork = 0\<rparr>"

text \<open>
  Modelled from the spec: the percentage a host shows for a slow task, the consumed
  share of the budget. The one task of this file has a budget of 100 units.
\<close>

definition percent_done :: "slow_task \<Rightarrow> nat" where
  "percent_done t = CompletedWork t * 100 div TotalAmountOfWork t"

text \<open>
  Modelled from the spec: \<open>EnterProgressFrame\<close>, missing like the class. The given
  amount of work is consumed, up to the budget, and the new percentage is shown.
\<close>

definition EnterProgressFrame :: "nat \<Rightarrow> slow_task \<times> 'e run \<Rightarrow> slow_task \<times> 'e run" where
  "EnterProgressFrame work ts =
     (case ts of (t, s) \<Rightarrow>
        let t' = t\<lparr>CompletedWork := min (TotalAmountOfWork t) (CompletedWork t + work)\<rparr>
        in (t', emit (Progress (percent_done t')) s))"

text \<open>
  Modelled from the spec: the slow task that \<open>GEngineLoop.PreInit\<close> runs for itself is
  not in this file. The spec describes each phase's progress as a reserved slice of
  the 0 to 100 budget that is advanced step by step and never exceeded, and the
  comment at lines 162 and 163 gives the slice: \<open>PreInit\<close> leaves 20 of the 100 units
  unused. Each step enters its work, cut to what is left of the 80 units.
\<close>

fun PreInit_progress :: "nat list \<Rightarrow> slow_task \<times> 'e run \<Rightarrow> slow_task \<times> 'e run" where
  "PreInit_progress [] ts = ts"
| "PreInit_progress (work # later) ts =
     PreInit_progress later (EnterProgressFrame (min work (80 - CompletedWork (fst ts))) ts)"

text \<open>
  Modelled from the spec: \<open>GEngineLoop.PreInit\<close> as the sequencer and the splash screen
  see it. It shows the progress of its own slow task, changes the process and returns
  an error level.
\<close>

definition GEngineLoop_PreInit_call ::
  "'e collaborators \<Rightarrow> string \<Rightarrow> 'e run \<Rightarrow> int32 \<times> 'e run" where
  "GEngineLoop_PreInit_call ops CmdLine s0 =
     (case PreInit_progress (PreInit_frames ops CmdLine (proc s0))
             (FScopedSlowTask 100, emit CallPreInit s0) of
        (t, s) \<Rightarrow>
          (case GEngineLoop_PreInit ops CmdLine (proc s0) of
             (ErrorLevel, g) \<Rightarrow> (ErrorLevel, \<lparr>proc = g, trace = trace s\<rparr>)))"

subsection \<open>The four wrappers\<close>

definition EnginePreInit :: "'e collaborators \<Rightarrow> string \<Rightarrow> 'e run \<Rightarrow> int32 \<times> 'e run" where
  "EnginePreInit ops CmdLine s = GEngineLoop_PreInit_call ops CmdLine s"

definition EngineInit :: "'e collaborators \<Rightarrow> 'e run \<Rightarrow> int32 \<times> 'e run" where
  "EngineInit ops s = call_int32 CallInit (GEngineLoop_Init ops) s"

definition EngineTick :: "'e collaborators \<Rightarrow> 'e run \<Rightarrow> 'e run" where
  "EngineTick ops s = call CallTick (GEngineLoop_Tick ops) s"

definition EngineExit :: "'e collaborators \<Rightarrow> 'e run \<Rightarrow> 'e run" where
  "EngineExit ops s =
     call CallExit (GEngineLoop_Exit ops) (RequestEngineExit ''EngineExit() was called'' s)"

subsection \<open>The two loops\<close>

text \<open>
  Both loops of \<open>GuardedMain\<close> wait for something only the outside world can bring
  about, so either may run forever. The fuel bounds the number of times the loop body
  is run; the boolean says whether the loop was left (\<open>True\<close>) or the fuel ran out with
  the condition still holding (\<open>False\<close>). In both cases the state is the one reached.
\<close>

fun wait_for_debugger :: "nat \<Rightarrow> 'e collaborators \<Rightarrow> 'e run \<Rightarrow> 'e run \<times> bool" where
  "wait_for_debugger 0 ops s =
     (if \<not> IsDebuggerPresent ops (proc s) then (s, False) else (s, True))"
| "wait_for_debugger (Suc n) ops s =
     (if \<not> IsDebuggerPresent ops (proc s)
      then wait_for_debugger n ops (call SleepPoll (Sleep ops) s)
      else (s, True))"

fun tick_loop :: "nat \<Rightarrow> 'e collaborators \<Rightarrow> 'e run \<Rightarrow> 'e run \<times> bool" where
  "tick_loop 0 ops s =
     (case IsEngineExitRequested s of (requested, s1) \<Rightarrow>
        if \<not> requested then (s1, False) else (s1, True))"
| "tick_loop (Suc n) ops s =
     (case IsEngineExitRequested s of (requested, s1) \<Rightarrow>
        if \<not> requested then tick_loop n ops (EngineTick ops s1) else (s1, True))"

subsection \<open>GuardedMain, block by block\<close>

text \<open>Lines 102 to 110: the wait for a debugger, compiled out of shipping builds.\<close>

definition DebugAttachGate ::
  "nat \<Rightarrow> config \<Rightarrow> 'e collaborators \<Rightarrow> string \<Rightarrow> 'e run \<Rightarrow> 'e run \<times> bool" where
  "DebugAttachGate fuel cfg ops CmdLine s =
     (if \<not> UE_BUILD_SHIPPING cfg \<and>
         (FParse_Param ops CmdLine ''waitforattach'' \<or> FParse_Param ops CmdLine ''WaitForDebugger'')
      then (case wait_for_debugger fuel ops s of
              (s1, attached) \<Rightarrow> if attached then (emit DebugBreak s1, True) else (s1, False))
      else (s, True))"

text \<open>Lines 93 to 148: everything before the call of \<open>EnginePreInit\<close>.\<close>

definition GuardedMain_startup ::
  "nat \<Rightarrow> config \<Rightarrow> 'e collaborators \<Rightarrow> string \<Rightarrow> 'e run \<Rightarrow> 'e run \<times> bool" where
  "GuardedMain_startup fuel cfg ops CmdLine s0 =
     (let s = emit (Activity ''Starting'') s0;
          s = emit (Acquire TaskTagScope) s
      in case DebugAttachGate fuel cfg ops CmdLine s of
           (s, attached) \<Rightarrow>
             if \<not> attached then (s, False)
             else
               let s = emit (BootTiming ''DefaultMain'') s;
                   s = call PreMainInitBroadcast (PreMainInitDelegate ops) s;
                   s = emit (Acquire CleanupGuard) s;
                   s = (if PLATFORM_WINDOWS cfg then emit MiniDumpFilename s else s);
                   s = emit (Activity ''Initializing'') s
               in (s, True))"

text \<open>Lines 159 to 189: the slow task around the initialiser, and the logging after it.\<close>

definition GuardedMain_init :: "config \<Rightarrow> 'e collaborators \<Rightarrow> 'e run \<Rightarrow> int32 \<times> 'e run" where
  "GuardedMain_init cfg ops s0 =
     (let s = emit (Acquire SlowTask) s0;
          (t, s) = EnterProgressFrame 80 (FScopedSlowTask 100, s);
          (t, s) = EnterProgressFrame 20 (t, s);
          (ErrorLevel, s) =
             (if WITH_EDITOR cfg \<and> GIsEditor ops (proc s)
              then call_int32 CallEditorInit (EditorInit ops) s
              else EngineInit ops s);
          s = emit (Release SlowTask) s;
          s = emit InitTimeLogged s;
          s = emit (BootTiming ''Tick loop starting'') s;
          s = emit DumpBootTiming s;
          s = emit (Activity ''Ticking loop'') s
      in (ErrorLevel, s))"

text \<open>
  Lines 193 to 199: the tick loop, skipped when the engine is embedded. The global is
  read here, with the value it has after the initialiser.
\<close>

definition GuardedMain_run :: "nat \<Rightarrow> 'e collaborators \<Rightarrow> 'e run \<Rightarrow> 'e run \<times> bool" where
  "GuardedMain_run fuel ops s =
     (if \<not> bIsEmbedded (proc s) then tick_loop fuel ops s else (s, True))"

text \<open>Lines 201 to 208: the bookmark and the editor's own exit.\<close>

definition GuardedMain_finish :: "config \<Rightarrow> 'e collaborators \<Rightarrow> 'e run \<Rightarrow> 'e run" where
  "GuardedMain_finish cfg ops s0 =
     (let s = emit (Bookmark ''Tick loop end'') s0
      in if WITH_EDITOR cfg \<and> GIsEditor ops (proc s)
         then call CallEditorExit (EditorExit ops) s
         else s)"

text \<open>
  Lines 129 to 137: the destructor of the cleanup guard. The global is read again
  here, with the value it has when the function returns.
\<close>

definition CleanupGuard_dtor :: "'e collaborators \<Rightarrow> 'e run \<Rightarrow> 'e run" where
  "CleanupGuard_dtor ops s0 =
     (let s = emit (Release CleanupGuard) s0
      in if \<not> bIsEmbedded (proc s) then EngineExit ops s else s)"

text \<open>
  A \<open>return\<close> of \<open>GuardedMain\<close> after the guard is declared: the locals are destroyed in
  the reverse order of their declaration, the guard (line 138) before the task tag
  scope (line 95), and the caller receives \<open>ErrorLevel\<close>.
\<close>

definition GuardedMain_return ::
  "'e collaborators \<Rightarrow> int32 \<Rightarrow> 'e run \<Rightarrow> 'e run \<times> int32 option" where
  "GuardedMain_return ops ErrorLevel s =
     (emit (Release TaskTagScope) (CleanupGuard_dtor ops s), Some ErrorLevel)"

text \<open>
  The whole function. The result is \<open>None\<close> while the call has not returned: the fuel
  ran out in the wait for the debugger or in the tick loop.
\<close>

definition GuardedMain ::
  "nat \<Rightarrow> config \<Rightarrow> 'e collaborators \<Rightarrow> string \<Rightarrow> 'e process \<Rightarrow> 'e run \<times> int32 option" where
  "GuardedMain fuel cfg ops CmdLine g =
     (case GuardedMain_startup fuel cfg ops CmdLine \<lparr>proc = g, trace = []\<rparr> of
        (s, started) \<Rightarrow>
          if \<not> started then (s, None)
          else
            (case EnginePreInit ops CmdLine s of
               (ErrorLevel, s) \<Rightarrow>
                 if ErrorLevel \<noteq> 0 then GuardedMain_return ops ErrorLevel s
                 else
                   (case IsEngineExitRequested s of
                      (requested, s) \<Rightarrow>
                        if requested then GuardedMain_return ops ErrorLevel s
                        else
                          (case GuardedMain_init cfg ops s of
                             (ErrorLevel, s) \<Rightarrow>
                               (case GuardedMain_run fuel ops s of
                                  (s, left) \<Rightarrow>
                                    if \<not> left then (s, None)
                                    else GuardedMain_return ops ErrorLevel
                                           (GuardedMain_finish cfg ops s))))))"

subsection \<open>Reading a trace\<close>

text \<open>
  The events each block of \<open>GuardedMain\<close> appends, as lists. \<open>gate\<close> stands for what
  the wait for the debugger recorded, \<open>shown\<close> for the percentages of \<open>PreInit\<close>'s own
  slow task, \<open>editor\<close> for the outcome of the test \<open>WITH_EDITOR && GIsEditor\<close>, \<open>k\<close> for
  the number of completed loop iterations, and \<open>embedded\<close> for the value of
  \<open>bIsEmbedded\<close> that the destructor of the guard read.
\<close>

definition startup_events :: "config \<Rightarrow> event list \<Rightarrow> event list" where
  "startup_events cfg gate =
     [Activity ''Starting'', Acquire TaskTagScope] @ gate
     @ [BootTiming ''DefaultMain'', PreMainInitBroadcast, Acquire CleanupGuard]
     @ (if PLATFORM_WINDOWS cfg then [MiniDumpFilename] else [])
     @ [Activity ''Initializing'']"

definition preinit_events :: "nat list \<Rightarrow> event list" where
  "preinit_events shown = CallPreInit # map Progress shown"

definition init_events :: "bool \<Rightarrow> event list" where
  "init_events editor =
     [Acquire SlowTask, Progress 80, Progress 100,
      if editor then CallEditorInit else CallInit,
      Release SlowTask, InitTimeLogged, BootTiming ''Tick loop starting'', DumpBootTiming,
      Activity ''Ticking loop'']"

definition tick_events :: "nat \<Rightarrow> event list" where
  "tick_events k = concat (replicate k [QueryExit False, CallTick])"

definition finish_events :: "bool \<Rightarrow> event list" where
  "finish_events editor =
     Bookmark ''Tick loop end'' # (if editor then [CallEditorExit] else [])"

definition return_events :: "bool \<Rightarrow> event list" where
  "return_events embedded =
     Release CleanupGuard #
     (if embedded then [] else [CallRequestExit ''EngineExit() was called'', CallExit])
     @ [Release TaskTagScope]"



text \<open>The percentages shown, in order.\<close>

fun progress_reports :: "event list \<Rightarrow> nat list" where
  "progress_reports [] = []"
| "progress_reports (Progress p # es) = p # progress_reports es"
| "progress_reports (_ # es) = progress_reports es"

text \<open>
  The \<open>while\<close> statement of line 195 is entered when its condition is evaluated at
  least once. Nothing is recorded between the activity update of line 189 and the
  statement, so in a trace this is an exit query right after that update.
\<close>

definition tick_loop_entered :: "event list \<Rightarrow> bool" where
  "tick_loop_entered tr =
     (case dropWhile (\<lambda>ev. ev \<noteq> Activity ''Ticking loop'') tr of
        _ # QueryExit b # _ \<Rightarrow> True
      | _ \<Rightarrow> False)"

text \<open>
  A collaborator keeps a pending exit request when it never clears the flag. The
  engine offers no call that withdraws a request, so this is what is expected of
  \<open>GEngineLoop.Exit\<close>; it is stated where it is used.
\<close>

definition keeps_exit_request :: "('e process \<Rightarrow> 'e process) \<Rightarrow> bool" where
  "keeps_exit_request f \<longleftrightarrow> (\<forall>g. GIsRequestingExit g \<longrightarrow> GIsRequestingExit (f g))"


subsection \<open>Concrete engines\<close>

text \<open>
  A small engine to run the sequencer on. Its state is a counter. The debugger shows
  up after two sleeps; \<open>PreInit\<close> and \<open>Init\<close> return the given codes; the \<open>n\<close>-th tick
  requests exit; \<open>PreInit\<close> enters no work into its slow task.
\<close>

definition demo_ops :: "int32 \<Rightarrow> int32 \<Rightarrow> nat \<Rightarrow> nat collaborators" where
  "demo_ops pre ini n =
     \<lparr>FParse_Param = (\<lambda>CmdLine p. CmdLine = ''-'' @ p),
      IsDebuggerPresent = (\<lambda>g. 2 \<le> engine g),
      Sleep = (\<lambda>g. g\<lparr>engine := engine g + 1\<rparr>),
      PreMainInitDelegate = (\<lambda>g. g),
      GEngineLoop_PreInit = (\<lambda>CmdLine g. (pre, g\<lparr>engine := 0\<rparr>)),
      PreInit_frames = (\<lambda>CmdLine g. []),
      GEngineLoop_Init = (\<lambda>g. (ini, g)),
      GEngineLoop_Tick =
        (\<lambda>g. g\<lparr>engine := engine g + 1, GIsRequestingExit := (n \<le> engine g + 1)\<rparr>),
      GEngineLoop_Exit = (\<lambda>g. g\<lparr>engine := 0\<rparr>),
      GIsEditor = (\<lambda>g. False),
      EditorInit = (\<lambda>g. (0, g)),
      EditorExit = (\<lambda>g. g)\<rparr>"

text \<open>The same engine with a \<open>PreInit\<close> that reports progress in three steps.\<close>

definition reporting_ops :: "nat collaborators" where
  "reporting_ops = (demo_ops 0 0 1)\<lparr>PreInit_frames := (\<lambda>CmdLine g. [30, 60, 40])\<rparr>"


text \<open>The same engine with an \<open>Exit\<close> that withdraws the exit request.\<close>

definition forgetful_ops :: "nat collaborators" where
  "forgetful_ops =
     (demo_ops 7 0 3)\<lparr>GEngineLoop_Exit := (\<lambda>g. g\<lparr>GIsRequestingExit := False\<rparr>)\<rparr>"

definition demo_cfg :: config where
  "demo_cfg = \<lparr>UE_BUILD_SHIPPING = False, WITH_EDITOR = False, PLATFORM_WINDOWS = True\<rparr>"

definition demo_start :: "bool \<Rightarrow> nat process" where
  "demo_start embedded = \<lparr>GIsRequestingExit = False, bIsEmbedded = embedded, engine = 0\<rparr>"

section \<open>Properties\<close>

subsection \<open>What each step records\<close>

lemma trace_emit [simp]: "trace (emit ev s) = trace s @ [ev]"
  by (simp add: emit_def)

lemma proc_emit [simp]: "proc (emit ev s) = proc s"
  by (simp add: emit_def)

lemma trace_call [simp]: "trace (call ev f s) = trace s @ [ev]"
  by (simp add: call_def)

lemma proc_call [simp]: "proc (call ev f s) = f (proc s)"
  by (simp add: call_def)

lemma call_int32_eq:
  "call_int32 ev f s = (e, s') \<longleftrightarrow>
     e = fst (f (proc s)) \<and> s' = \<lparr>proc = snd (f (proc s)), trace = trace s @ [ev]\<rparr>"
  by (auto simp: call_int32_def split: prod.splits)

lemma count_list_rounds:
  "count_list (concat (replicate k [a, b])) x =
     (if a = x then k else 0) + (if b = x then k else 0)"
  by (induction k) auto

lemma wait_for_debugger_trace:
  "wait_for_debugger n ops s = (s', b) \<Longrightarrow>
     \<exists>k\<le>n. trace s' = trace s @ replicate k SleepPoll"
proof (induction n arbitrary: s)
  case 0
  then show ?case by (auto split: if_splits)
next
  case (Suc n)
  show ?case
  proof (cases "IsDebuggerPresent ops (proc s)")
    case True
    with Suc.prems show ?thesis by auto
  next
    case False
    with Suc.prems have "wait_for_debugger n ops (call SleepPoll (Sleep ops) s) = (s', b)"
      by simp
    from Suc.IH [OF this] obtain k where "k \<le> n"
      and "trace s' = trace (call SleepPoll (Sleep ops) s) @ replicate k SleepPoll"
      by blast
    then have "Suc k \<le> Suc n \<and> trace s' = trace s @ replicate (Suc k) SleepPoll"
      by (simp add: replicate_app_Cons_same)
    then show ?thesis by blast
  qed
qed

lemma tick_loop_trace:
  "tick_loop n ops s = (s', b) \<Longrightarrow>
     \<exists>k\<le>n. trace s' = trace s @ concat (replicate k [QueryExit False, CallTick]) @ [QueryExit b]
          \<and> proc s' = (GEngineLoop_Tick ops ^^ k) (proc s)
          \<and> GIsRequestingExit (proc s') = b
          \<and> (\<not> b \<longrightarrow> k = n)"
proof (induction n arbitrary: s)
  case 0
  then show ?case by (auto simp: IsEngineExitRequested_def split: if_splits)
next
  case (Suc n)
  show ?case
  proof (cases "GIsRequestingExit (proc s)")
    case True
    with Suc.prems show ?thesis by (auto simp: IsEngineExitRequested_def)
  next
    case False
    let ?s1 = "EngineTick ops (emit (QueryExit False) s)"
    from False Suc.prems have "tick_loop n ops ?s1 = (s', b)"
      by (simp add: IsEngineExitRequested_def)
    from Suc.IH [OF this] obtain k where k: "k \<le> n"
      "trace s' = trace ?s1 @ concat (replicate k [QueryExit False, CallTick]) @ [QueryExit b]"
      "proc s' = (GEngineLoop_Tick ops ^^ k) (proc ?s1)"
      "GIsRequestingExit (proc s') = b" "\<not> b \<longrightarrow> k = n"
      by blast
    have "Suc k \<le> Suc n \<and>
          trace s' = trace s @ concat (replicate (Suc k) [QueryExit False, CallTick]) @ [QueryExit b]
          \<and> proc s' = (GEngineLoop_Tick ops ^^ Suc k) (proc s)
          \<and> GIsRequestingExit (proc s') = b \<and> (\<not> b \<longrightarrow> Suc k = Suc n)"
      using k by (simp add: EngineTick_def funpow_swap1)
    then show ?thesis by blast
  qed
qed

text \<open>
  The loop, exactly: when the request is first seen after \<open>N\<close> ticks and the fuel allows
  \<open>N\<close> ticks, the loop makes \<open>N\<close> rounds of query and tick, and one last query.
\<close>

lemma tick_loop_exact:
  "\<forall>j<N. \<not> GIsRequestingExit ((GEngineLoop_Tick ops ^^ j) (proc s)) \<Longrightarrow>
   GIsRequestingExit ((GEngineLoop_Tick ops ^^ N) (proc s)) \<Longrightarrow> N \<le> fuel \<Longrightarrow>
   tick_loop fuel ops s =
     (\<lparr>proc = (GEngineLoop_Tick ops ^^ N) (proc s),
       trace = trace s @ concat (replicate N [QueryExit False, CallTick]) @ [QueryExit True]\<rparr>, True)"
proof (induction N arbitrary: s fuel)
  case 0
  then show ?case
    by (cases fuel) (simp_all add: IsEngineExitRequested_def emit_def)
next
  case (Suc N)
  from Suc.prems(3) obtain m where fuel: "fuel = Suc m" and m: "N \<le> m"
    by (cases fuel) auto
  from Suc.prems(1) have now: "\<not> GIsRequestingExit (proc s)"
    by (metis funpow_0 zero_less_Suc)
  let ?s1 = "EngineTick ops (emit (QueryExit False) s)"
  have p: "proc ?s1 = GEngineLoop_Tick ops (proc s)"
    by (simp add: EngineTick_def)
  have a: "\<forall>j<N. \<not> GIsRequestingExit ((GEngineLoop_Tick ops ^^ j) (proc ?s1))"
  proof (intro allI impI)
    fix j assume "j < N"
    then have "\<not> GIsRequestingExit ((GEngineLoop_Tick ops ^^ Suc j) (proc s))"
      using Suc.prems(1) by (meson Suc_less_eq)
    then show "\<not> GIsRequestingExit ((GEngineLoop_Tick ops ^^ j) (proc ?s1))"
      by (simp add: p funpow_swap1)
  qed
  have b: "GIsRequestingExit ((GEngineLoop_Tick ops ^^ N) (proc ?s1))"
    using Suc.prems(2) by (simp add: p funpow_swap1)
  show ?case
    using Suc.IH [OF a b m] now
    by (simp add: fuel IsEngineExitRequested_def EngineTick_def funpow_swap1)
qed

lemma count_list_outside:
  "set xs \<subseteq> A \<Longrightarrow> x \<notin> A \<Longrightarrow> count_list xs x = 0"
  by (auto simp: count_list_0_iff)

lemma DebugAttachGate_trace:
  assumes "DebugAttachGate fuel cfg ops CmdLine s = (s', attached)"
  shows "\<exists>gate. trace s' = trace s @ gate
           \<and> set gate \<subseteq> (if attached then {SleepPoll, DebugBreak} else {SleepPoll})"
proof (cases "\<not> UE_BUILD_SHIPPING cfg \<and>
    (FParse_Param ops CmdLine ''waitforattach'' \<or> FParse_Param ops CmdLine ''WaitForDebugger'')")
  case False
  with assms have "s' = s" "attached"
    by (auto simp: DebugAttachGate_def)
  then show ?thesis by simp
next
  case True
  obtain s1 b where w: "wait_for_debugger fuel ops s = (s1, b)"
    by (cases "wait_for_debugger fuel ops s")
  from wait_for_debugger_trace [OF w] obtain k
    where k: "trace s1 = trace s @ replicate k SleepPoll" by blast
  show ?thesis
  proof (cases b)
    case True
    with assms \<open>\<not> UE_BUILD_SHIPPING cfg \<and> _\<close> w
    have "s' = emit DebugBreak s1" "attached"
      by (auto simp: DebugAttachGate_def)
    then have "trace s' = trace s @ (replicate k SleepPoll @ [DebugBreak])
        \<and> set (replicate k SleepPoll @ [DebugBreak]) \<subseteq> (if attached then {SleepPoll, DebugBreak} else {SleepPoll})"
      using k by auto
    then show ?thesis by blast
  next
    case False
    with assms \<open>\<not> UE_BUILD_SHIPPING cfg \<and> _\<close> w
    have "s' = s1" "\<not> attached"
      by (auto simp: DebugAttachGate_def)
    then have "trace s' = trace s @ replicate k SleepPoll
        \<and> set (replicate k SleepPoll) \<subseteq> (if attached then {SleepPoll, DebugBreak} else {SleepPoll})"
      using k by auto
    then show ?thesis by blast
  qed
qed

lemma startup_blocked:
  assumes "GuardedMain_startup fuel cfg ops CmdLine s0 = (s1, False)"
  shows "\<exists>gate. trace s1 = trace s0 @ [Activity ''Starting'', Acquire TaskTagScope] @ gate
           \<and> set gate \<subseteq> {SleepPoll}"
proof -
  let ?s = "emit (Acquire TaskTagScope) (emit (Activity ''Starting'') s0)"
  obtain s' a where g: "DebugAttachGate fuel cfg ops CmdLine ?s = (s', a)"
    by (cases "DebugAttachGate fuel cfg ops CmdLine ?s")
  with assms have "\<not> a" "s1 = s'"
    by (auto simp: GuardedMain_startup_def Let_def split: if_splits)
  with DebugAttachGate_trace [OF g] show ?thesis
    by auto
qed

lemma startup_passed:
  assumes "GuardedMain_startup fuel cfg ops CmdLine s0 = (s1, True)"
  shows "\<exists>gate. trace s1 = trace s0 @ [Activity ''Starting'', Acquire TaskTagScope] @ gate
             @ [BootTiming ''DefaultMain'', PreMainInitBroadcast, Acquire CleanupGuard]
             @ (if PLATFORM_WINDOWS cfg then [MiniDumpFilename] else [])
             @ [Activity ''Initializing'']
           \<and> set gate \<subseteq> {SleepPoll, DebugBreak}"
proof -
  let ?s = "emit (Acquire TaskTagScope) (emit (Activity ''Starting'') s0)"
  obtain s' a where g: "DebugAttachGate fuel cfg ops CmdLine ?s = (s', a)"
    by (cases "DebugAttachGate fuel cfg ops CmdLine ?s")
  with assms have a: "a" and s1: "trace s1 = trace s'
       @ [BootTiming ''DefaultMain'', PreMainInitBroadcast, Acquire CleanupGuard]
       @ (if PLATFORM_WINDOWS cfg then [MiniDumpFilename] else [])
       @ [Activity ''Initializing'']"
    by (auto simp: GuardedMain_startup_def Let_def split: if_splits)
  from DebugAttachGate_trace [OF g] a obtain gate
    where "trace s' = trace ?s @ gate" "set gate \<subseteq> {SleepPoll, DebugBreak}"
    by auto
  with s1 show ?thesis by auto
qed

text \<open>
  What \<open>PreInit\<close>'s own slow task shows: percentages that never go back and never pass
  80, whatever work the engine enters.
\<close>

lemma PreInit_progress_shown:
  assumes "TotalAmountOfWork t = 100" and "CompletedWork t \<le> 80"
    and "PreInit_progress frames (t, s) = (t', s')"
  shows "\<exists>shown. trace s' = trace s @ map Progress shown \<and> proc s' = proc s
           \<and> sorted (CompletedWork t # shown) \<and> (\<forall>p\<in>set shown. p \<le> 80)"
  using assms
proof (induction frames arbitrary: t s)
  case Nil
  then show ?case by simp
next
  case (Cons work later)
  define c where "c = min 100 (CompletedWork t + min work (80 - CompletedWork t))"
  define t1 where "t1 = t\<lparr>CompletedWork := c\<rparr>"
  define s1 where "s1 = emit (Progress c) s"
  have c: "CompletedWork t \<le> c" "c \<le> 80"
    using Cons.prems(2) by (auto simp: c_def)
  have step: "EnterProgressFrame (min work (80 - CompletedWork t)) (t, s) = (t1, s1)"
    using Cons.prems(1)
    by (simp add: EnterProgressFrame_def Let_def percent_done_def t1_def s1_def c_def)
  have t1: "TotalAmountOfWork t1 = 100" "CompletedWork t1 \<le> 80" "CompletedWork t1 = c"
    using Cons.prems(1) c by (simp_all add: t1_def)
  from Cons.prems(3) step have "PreInit_progress later (t1, s1) = (t', s')"
    by simp
  from Cons.IH [OF t1(1,2) this] obtain shown
    where shown: "trace s' = trace s1 @ map Progress shown" "proc s' = proc s1"
      "sorted (CompletedWork t1 # shown)" "\<forall>p\<in>set shown. p \<le> 80"
    by blast
  have "trace s' = trace s @ map Progress (c # shown) \<and> proc s' = proc s
      \<and> sorted (CompletedWork t # c # shown) \<and> (\<forall>p\<in>set (c # shown). p \<le> 80)"
    using shown c t1(3) by (auto simp: s1_def)
  then show ?case by blast
qed

lemma EnginePreInit_trace:
  assumes "EnginePreInit ops CmdLine s = (e, s')"
  shows "\<exists>shown. trace s' = trace s @ preinit_events shown
           \<and> sorted shown \<and> (\<forall>p\<in>set shown. p \<le> 80)"
proof -
  obtain t1 s1 where p: "PreInit_progress (PreInit_frames ops CmdLine (proc s))
      (FScopedSlowTask 100, emit CallPreInit s) = (t1, s1)"
    by (cases "PreInit_progress (PreInit_frames ops CmdLine (proc s))
      (FScopedSlowTask 100, emit CallPreInit s)")
  with assms have "trace s' = trace s1"
    by (auto simp: EnginePreInit_def GEngineLoop_PreInit_call_def split: prod.splits)
  moreover from PreInit_progress_shown [OF _ _ p] obtain shown
    where "trace s1 = trace (emit CallPreInit s) @ map Progress shown"
      "sorted (CompletedWork (FScopedSlowTask 100) # shown)" "\<forall>p\<in>set shown. p \<le> 80"
    by (auto simp: FScopedSlowTask_def)
  ultimately have "trace s' = trace s @ preinit_events shown \<and> sorted shown
      \<and> (\<forall>p\<in>set shown. p \<le> 80)"
    by (simp add: preinit_events_def)
  then show ?thesis by blast
qed


lemma init_trace:
  "GuardedMain_init cfg ops s = (e, s') \<Longrightarrow>
     trace s' = trace s @
       [Acquire SlowTask, Progress 80, Progress 100,
        if WITH_EDITOR cfg \<and> GIsEditor ops (proc s) then CallEditorInit else CallInit,
        Release SlowTask, InitTimeLogged, BootTiming ''Tick loop starting'', DumpBootTiming,
        Activity ''Ticking loop'']"
  by (auto simp: GuardedMain_init_def EnterProgressFrame_def FScopedSlowTask_def
      percent_done_def EngineInit_def call_int32_def Let_def split: prod.splits if_splits)

lemma finish_trace:
  "trace (GuardedMain_finish cfg ops s) = trace s @ Bookmark ''Tick loop end'' #
     (if WITH_EDITOR cfg \<and> GIsEditor ops (proc s) then [CallEditorExit] else [])"
  by (simp add: GuardedMain_finish_def Let_def)

lemma EngineExit_trace:
  "trace (EngineExit ops s) = trace s @ [CallRequestExit ''EngineExit() was called'', CallExit]"
  by (simp add: EngineExit_def RequestEngineExit_def)

lemma return_trace:
  "trace (fst (GuardedMain_return ops e s)) = trace s @ return_events (bIsEmbedded (proc s))"
  by (simp add: GuardedMain_return_def CleanupGuard_dtor_def EngineExit_trace Let_def
      return_events_def)

lemma return_result: "snd (GuardedMain_return ops e s) = Some e"
  by (simp add: GuardedMain_return_def)

lemma return_proc:
  "proc (fst (GuardedMain_return ops e s)) =
     (if bIsEmbedded (proc s) then proc s
      else GEngineLoop_Exit ops ((proc s)\<lparr>GIsRequestingExit := True\<rparr>))"
  by (simp add: GuardedMain_return_def CleanupGuard_dtor_def EngineExit_def
      RequestEngineExit_def Let_def)

lemma run_trace:
  assumes "GuardedMain_run fuel ops s = (s', left)"
  shows "if bIsEmbedded (proc s) then s' = s \<and> left
         else \<exists>k\<le>fuel. trace s' = trace s @ concat (replicate k [QueryExit False, CallTick]) @ [QueryExit left]"
proof (cases "bIsEmbedded (proc s)")
  case True
  with assms show ?thesis by (auto simp: GuardedMain_run_def)
next
  case False
  with assms have "tick_loop fuel ops s = (s', left)"
    by (simp add: GuardedMain_run_def)
  from tick_loop_trace [OF this] False show ?thesis by auto
qed

text \<open>The five ways through \<open>GuardedMain\<close>, by the outcome of each block.\<close>

lemma GuardedMain_paths:
  fixes fuel cfg ops CmdLine g
  defines "r \<equiv> GuardedMain fuel cfg ops CmdLine g"
  obtains
    (waiting) s1 where
      "GuardedMain_startup fuel cfg ops CmdLine \<lparr>proc = g, trace = []\<rparr> = (s1, False)"
      "r = (s1, None)"
  | (preinit_failed) s1 e s2 where
      "GuardedMain_startup fuel cfg ops CmdLine \<lparr>proc = g, trace = []\<rparr> = (s1, True)"
      "EnginePreInit ops CmdLine s1 = (e, s2)" "e \<noteq> 0"
      "r = GuardedMain_return ops e s2"
  | (exit_requested) s1 s2 where
      "GuardedMain_startup fuel cfg ops CmdLine \<lparr>proc = g, trace = []\<rparr> = (s1, True)"
      "EnginePreInit ops CmdLine s1 = (0, s2)" "GIsRequestingExit (proc s2)"
      "r = GuardedMain_return ops 0 (emit (QueryExit True) s2)"
  | (ticking) s1 s2 e s3 s4 where
      "GuardedMain_startup fuel cfg ops CmdLine \<lparr>proc = g, trace = []\<rparr> = (s1, True)"
      "EnginePreInit ops CmdLine s1 = (0, s2)" "\<not> GIsRequestingExit (proc s2)"
      "GuardedMain_init cfg ops (emit (QueryExit False) s2) = (e, s3)"
      "GuardedMain_run fuel ops s3 = (s4, False)"
      "r = (s4, None)"
  | (completed) s1 s2 e s3 s4 where
      "GuardedMain_startup fuel cfg ops CmdLine \<lparr>proc = g, trace = []\<rparr> = (s1, True)"
      "EnginePreInit ops CmdLine s1 = (0, s2)" "\<not> GIsRequestingExit (proc s2)"
      "GuardedMain_init cfg ops (emit (QueryExit False) s2) = (e, s3)"
      "GuardedMain_run fuel ops s3 = (s4, True)"
      "r = GuardedMain_return ops e (GuardedMain_finish cfg ops s4)"
proof -
  obtain s1 started where st: "GuardedMain_startup fuel cfg ops CmdLine \<lparr>proc = g, trace = []\<rparr> = (s1, started)"
    by (cases "GuardedMain_startup fuel cfg ops CmdLine \<lparr>proc = g, trace = []\<rparr>")
  obtain e s2 where pre: "EnginePreInit ops CmdLine s1 = (e, s2)"
    by (cases "EnginePreInit ops CmdLine s1")
  obtain e' s3 where ini: "GuardedMain_init cfg ops (emit (QueryExit False) s2) = (e', s3)"
    by (cases "GuardedMain_init cfg ops (emit (QueryExit False) s2)")
  obtain s4 left where run: "GuardedMain_run fuel ops s3 = (s4, left)"
    by (cases "GuardedMain_run fuel ops s3")
  show thesis
  proof (cases started)
    case False
    with st have "r = (s1, None)" by (simp add: r_def GuardedMain_def)
    with st False waiting show thesis by auto
  next
    case started: True
    show thesis
    proof (cases "e = 0")
      case False
      with st started pre have "r = GuardedMain_return ops e s2"
        by (simp add: r_def GuardedMain_def)
      with st started pre False preinit_failed show thesis by auto
    next
      case e0: True
      show thesis
      proof (cases "GIsRequestingExit (proc s2)")
        case True
        with st started pre e0 have "r = GuardedMain_return ops 0 (emit (QueryExit True) s2)"
          by (simp add: r_def GuardedMain_def IsEngineExitRequested_def)
        with st started pre e0 True exit_requested show thesis by auto
      next
        case nreq: False
        show thesis
        proof (cases left)
          case False
          with st started pre e0 nreq ini run have "r = (s4, None)"
            by (simp add: r_def GuardedMain_def IsEngineExitRequested_def)
          with st started pre e0 nreq ini run False ticking show thesis by auto
        next
          case True
          with st started pre e0 nreq ini run
          have "r = GuardedMain_return ops e' (GuardedMain_finish cfg ops s4)"
            by (simp add: r_def GuardedMain_def IsEngineExitRequested_def)
          with st started pre e0 nreq ini run True completed show thesis by auto
        qed
      qed
    qed
  qed
qed

subsection \<open>The traces of GuardedMain\<close>

text \<open>
  The same case analysis on the trace: every run of \<open>GuardedMain\<close> is blocked with one
  of two sequences of events recorded, or returns from a state \<open>s'\<close> in which one of
  four sequences is recorded.
\<close>

lemma GuardedMain_traces:
  fixes fuel cfg ops CmdLine g
  defines "r \<equiv> GuardedMain fuel cfg ops CmdLine g"
  obtains
    (waiting) gate where
      "\<not> snd (GuardedMain_startup fuel cfg ops CmdLine \<lparr>proc = g, trace = []\<rparr>)"
      "snd r = None" "set gate \<subseteq> {SleepPoll}"
      "trace (fst r) = [Activity ''Starting'', Acquire TaskTagScope] @ gate"
  | (preinit_failed) gate shown e s' where
      "snd (GuardedMain_startup fuel cfg ops CmdLine \<lparr>proc = g, trace = []\<rparr>)"
      "r = GuardedMain_return ops e s'" "e \<noteq> 0"
      "set gate \<subseteq> {SleepPoll, DebugBreak}" "sorted shown" "\<forall>p\<in>set shown. p \<le> 80"
      "trace s' = startup_events cfg gate @ preinit_events shown"
  | (exit_requested) gate shown s' where
      "snd (GuardedMain_startup fuel cfg ops CmdLine \<lparr>proc = g, trace = []\<rparr>)"
      "r = GuardedMain_return ops 0 s'"
      "set gate \<subseteq> {SleepPoll, DebugBreak}" "sorted shown" "\<forall>p\<in>set shown. p \<le> 80"
      "trace s' = startup_events cfg gate @ preinit_events shown @ [QueryExit True]"
  | (ticking) gate shown ed where
      "snd (GuardedMain_startup fuel cfg ops CmdLine \<lparr>proc = g, trace = []\<rparr>)"
      "snd r = None"
      "set gate \<subseteq> {SleepPoll, DebugBreak}" "sorted shown" "\<forall>p\<in>set shown. p \<le> 80"
      "trace (fst r) = startup_events cfg gate @ preinit_events shown @ [QueryExit False]
          @ init_events ed @ tick_events fuel @ [QueryExit False]"
  | (loop_skipped) gate shown e ed ed' s' where
      "snd (GuardedMain_startup fuel cfg ops CmdLine \<lparr>proc = g, trace = []\<rparr>)"
      "r = GuardedMain_return ops e s'"
      "set gate \<subseteq> {SleepPoll, DebugBreak}" "sorted shown" "\<forall>p\<in>set shown. p \<le> 80"
      "trace s' = startup_events cfg gate @ preinit_events shown @ [QueryExit False]
          @ init_events ed @ finish_events ed'"
  | (loop_left) gate shown e ed k ed' s' where
      "snd (GuardedMain_startup fuel cfg ops CmdLine \<lparr>proc = g, trace = []\<rparr>)"
      "r = GuardedMain_return ops e s'"
      "set gate \<subseteq> {SleepPoll, DebugBreak}" "sorted shown" "\<forall>p\<in>set shown. p \<le> 80"
      "k \<le> fuel"
      "trace s' = startup_events cfg gate @ preinit_events shown @ [QueryExit False]
          @ init_events ed @ tick_events k @ [QueryExit True] @ finish_events ed'"
proof (cases rule: GuardedMain_paths [of fuel cfg ops CmdLine g])
  case (waiting s1)
  from startup_blocked [OF waiting(1)] obtain gate
    where "trace s1 = [Activity ''Starting'', Acquire TaskTagScope] @ gate" "set gate \<subseteq> {SleepPoll}"
    by auto
  with waiting(1,2) show thesis
    by (intro that(1) [of gate]) (simp_all add: r_def)
next
  case (preinit_failed s1 e s2)
  from startup_passed [OF preinit_failed(1)] obtain gate
    where g: "trace s1 = startup_events cfg gate" "set gate \<subseteq> {SleepPoll, DebugBreak}"
    by (auto simp: startup_events_def)
  from EnginePreInit_trace [OF preinit_failed(2)] obtain shown
    where p: "trace s2 = trace s1 @ preinit_events shown" "sorted shown" "\<forall>p\<in>set shown. p \<le> 80"
    by blast
  show thesis
    using preinit_failed(1,3,4) g p
    by (intro that(2) [of e s2 gate shown]) (simp_all add: r_def)
next
  case (exit_requested s1 s2)
  from startup_passed [OF exit_requested(1)] obtain gate
    where g: "trace s1 = startup_events cfg gate" "set gate \<subseteq> {SleepPoll, DebugBreak}"
    by (auto simp: startup_events_def)
  from EnginePreInit_trace [OF exit_requested(2)] obtain shown
    where p: "trace s2 = trace s1 @ preinit_events shown" "sorted shown" "\<forall>p\<in>set shown. p \<le> 80"
    by blast
  show thesis
    using exit_requested(1,4) g p
    by (intro that(3) [of "emit (QueryExit True) s2" gate shown]) (simp_all add: r_def)
next
  case (ticking s1 s2 e s3 s4)
  from startup_passed [OF ticking(1)] obtain gate
    where g: "trace s1 = startup_events cfg gate" "set gate \<subseteq> {SleepPoll, DebugBreak}"
    by (auto simp: startup_events_def)
  from EnginePreInit_trace [OF ticking(2)] obtain shown
    where p: "trace s2 = trace s1 @ preinit_events shown" "sorted shown" "\<forall>p\<in>set shown. p \<le> 80"
    by blast
  from run_trace [OF ticking(5)] have emb: "\<not> bIsEmbedded (proc s3)"
    by (auto split: if_splits)
  with ticking(5) have "tick_loop fuel ops s3 = (s4, False)"
    by (simp add: GuardedMain_run_def)
  from tick_loop_trace [OF this]
  have t4: "trace s4 = trace s3 @ tick_events fuel @ [QueryExit False]"
    by (auto simp: tick_events_def)
  show thesis
    using ticking(1,6) g p t4 init_trace [OF ticking(4)]
    by (intro that(4) [of gate shown "WITH_EDITOR cfg \<and> GIsEditor ops (proc s2)"])
       (simp_all add: r_def init_events_def)
next
  case (completed s1 s2 e s3 s4)
  from startup_passed [OF completed(1)] obtain gate
    where g: "trace s1 = startup_events cfg gate" "set gate \<subseteq> {SleepPoll, DebugBreak}"
    by (auto simp: startup_events_def)
  from EnginePreInit_trace [OF completed(2)] obtain shown
    where p: "trace s2 = trace s1 @ preinit_events shown" "sorted shown" "\<forall>p\<in>set shown. p \<le> 80"
    by blast
  note ini = init_trace [OF completed(4)]
  show thesis
  proof (cases "bIsEmbedded (proc s3)")
    case True
    with run_trace [OF completed(5)] have "s4 = s3" by simp
    then show thesis
      using completed(1,6) g p ini
      by (intro that(5) [of e "GuardedMain_finish cfg ops s4" gate shown
            "WITH_EDITOR cfg \<and> GIsEditor ops (proc s2)"
            "WITH_EDITOR cfg \<and> GIsEditor ops (proc s3)"])
         (simp_all add: r_def init_events_def finish_trace finish_events_def)
  next
    case False
    with run_trace [OF completed(5)] obtain k where k: "k \<le> fuel"
      "trace s4 = trace s3 @ tick_events k @ [QueryExit True]"
      by (auto simp: tick_events_def)
    then show thesis
      using completed(1,6) g p ini
      by (intro that(6) [of e "GuardedMain_finish cfg ops s4" gate shown k
            "WITH_EDITOR cfg \<and> GIsEditor ops (proc s2)"
            "WITH_EDITOR cfg \<and> GIsEditor ops (proc s4)"])
         (simp_all add: r_def init_events_def finish_trace finish_events_def)
  qed
qed

lemma count_tick_events:
  "count_list (tick_events k) x =
     (if x = QueryExit False then k else 0) + (if x = CallTick then k else 0)"
  by (auto simp: tick_events_def count_list_rounds)

lemma count_gate:
  "set gate \<subseteq> {SleepPoll, DebugBreak} \<Longrightarrow> x \<noteq> SleepPoll \<Longrightarrow> x \<noteq> DebugBreak \<Longrightarrow>
     count_list gate x = 0"
  by (rule count_list_outside) auto

lemma count_preinit_events:
  "(\<And>p. x \<noteq> Progress p) \<Longrightarrow>
     count_list (preinit_events shown) x = (if x = CallPreInit then 1 else 0)"
  by (induction shown) (auto simp: preinit_events_def)

lemmas count_simps =
  return_trace startup_events_def init_events_def finish_events_def return_events_def
  count_tick_events count_gate count_preinit_events

subsection \<open>The exit phase\<close>

text \<open>
  Claim C2. In every run of the sequencer, whichever way it ends (blocked waiting for
  the debugger, returned early after \<open>PreInit\<close>, still ticking, or returned after the
  tick loop), \<open>GEngineLoop.Exit\<close> has been called at most once.
\<close>

theorem exit_at_most_once:
  "count_list (trace (fst (GuardedMain fuel cfg ops CmdLine g))) CallExit \<le> 1"
proof (cases rule: GuardedMain_traces [of fuel cfg ops CmdLine g])
  case (waiting gate)
  then show ?thesis by (simp add: count_list_outside [of gate "{SleepPoll}"])
next
  case (preinit_failed gate shown e s')
  then show ?thesis by (simp add: count_simps)
next
  case (exit_requested gate shown s')
  then show ?thesis by (simp add: count_simps)
next
  case (ticking gate shown ed)
  then show ?thesis by (simp add: count_simps)
next
  case (loop_skipped gate shown e ed ed' s')
  then show ?thesis by (simp add: count_simps)
next
  case (loop_left gate shown e ed k ed' s')
  then show ?thesis by (simp add: count_simps)
qed

text \<open>The equations that evaluate a run of a concrete engine.\<close>

lemmas demo_simps =
  GuardedMain_def GuardedMain_startup_def DebugAttachGate_def GuardedMain_init_def
  GuardedMain_run_def GuardedMain_finish_def GuardedMain_return_def CleanupGuard_dtor_def
  EnginePreInit_def GEngineLoop_PreInit_call_def EngineInit_def EngineTick_def EngineExit_def
  IsEngineExitRequested_def RequestEngineExit_def
  EnterProgressFrame_def FScopedSlowTask_def percent_done_def
  emit_def call_def call_int32_def Let_def
  demo_ops_def demo_cfg_def demo_start_def

subsection \<open>A failed pre-initialisation\<close>



subsection \<open>An embedded engine\<close>










text \<open>The loop is left within the fuel as soon as some tick within the fuel requests exit.\<close>

lemma tick_loop_leaves:
  "GIsRequestingExit ((GEngineLoop_Tick ops ^^ N) (proc s)) \<Longrightarrow> N \<le> fuel \<Longrightarrow>
     snd (tick_loop fuel ops s)"
proof (induction fuel arbitrary: N s)
  case 0
  then show ?case by (simp add: IsEngineExitRequested_def)
next
  case (Suc fuel)
  show ?case
  proof (cases "GIsRequestingExit (proc s)")
    case True
    then show ?thesis by (simp add: IsEngineExitRequested_def)
  next
    case False
    with Suc.prems(1) obtain M where N: "N = Suc M"
      by (cases N) auto
    let ?s1 = "EngineTick ops (emit (QueryExit False) s)"
    have "GIsRequestingExit ((GEngineLoop_Tick ops ^^ M) (proc ?s1))"
      using Suc.prems(1) by (simp add: N EngineTick_def funpow_swap1)
    moreover have "M \<le> fuel"
      using Suc.prems(2) N by simp
    ultimately have "snd (tick_loop fuel ops ?s1)"
      by (rule Suc.IH)
    with False show ?thesis
      by (simp add: IsEngineExitRequested_def)
  qed
qed

lemma entered_after:
  "Activity ''Ticking loop'' \<notin> set pre \<Longrightarrow>
     tick_loop_entered (pre @ Activity ''Ticking loop'' # rest) =
       (case rest of QueryExit b # _ \<Rightarrow> True | _ \<Rightarrow> False)"
proof -
  assume "Activity ''Ticking loop'' \<notin> set pre"
  then have "dropWhile (\<lambda>ev. ev \<noteq> Activity ''Ticking loop'') (pre @ Activity ''Ticking loop'' # rest)
      = Activity ''Ticking loop'' # rest"
    by (subst dropWhile_append2) auto
  then show ?thesis
    by (simp add: tick_loop_entered_def split: list.splits event.splits)
qed

lemma tick_events_then_query:
  "\<exists>b' tail0'. tick_events k @ QueryExit b # tail0 = QueryExit b' # tail0'"
  by (cases k) (auto simp: tick_events_def)

subsection \<open>A failed initialisation\<close>

text \<open>
  Claim C4, as amended. Take a run in which \<open>EnginePreInit\<close> returned 0 with no exit
  requested, and the initialiser returned \<open>ErrorLevel\<close>, zero or not. Whether the
  tick loop is entered depends on \<open>bIsEmbedded\<close> alone, as line 193 reads it in the
  state the initialiser left: it is entered exactly when the engine is not embedded. And the call returns \<open>ErrorLevel\<close> as soon as the loop is
  left: at once when embedded, otherwise when some tick within the fuel has requested
  exit.
\<close>

theorem init_failure_does_not_gate_run:
  fixes fuel cfg ops CmdLine g
  defines "r \<equiv> GuardedMain fuel cfg ops CmdLine g"
  assumes startup: "GuardedMain_startup fuel cfg ops CmdLine \<lparr>proc = g, trace = []\<rparr> = (s1, True)"
    and preinit: "EnginePreInit ops CmdLine s1 = (0, s2)"
    and check: "IsEngineExitRequested s2 = (False, s2')"
    and init: "GuardedMain_init cfg ops s2' = (ErrorLevel, s3)"
  shows "(tick_loop_entered (trace (fst r)) \<longleftrightarrow> \<not> bIsEmbedded (proc s3))
       \<and> (bIsEmbedded (proc s3) \<or> (\<exists>N\<le>fuel. GIsRequestingExit ((GEngineLoop_Tick ops ^^ N) (proc s3)))
            \<longrightarrow> snd r = Some ErrorLevel)"
proof -
  obtain s4 left where run: "GuardedMain_run fuel ops s3 = (s4, left)"
    by (cases "GuardedMain_run fuel ops s3")
  have r: "r = (if \<not> left then (s4, None)
                else GuardedMain_return ops ErrorLevel (GuardedMain_finish cfg ops s4))"
    using startup preinit check init run by (simp add: r_def GuardedMain_def)
  from startup_passed [OF startup] obtain gate
    where gate: "trace s1 = startup_events cfg gate" "set gate \<subseteq> {SleepPoll, DebugBreak}"
    by (auto simp: startup_events_def)
  from EnginePreInit_trace [OF preinit] obtain shown
    where shown: "trace s2 = trace s1 @ preinit_events shown"
    by blast
  from check have s2': "trace s2' = trace s2 @ [QueryExit False]"
    by (auto simp: IsEngineExitRequested_def)
  define pre where "pre = startup_events cfg gate @ preinit_events shown @ [QueryExit False] @
       [Acquire SlowTask, Progress 80, Progress 100,
        if WITH_EDITOR cfg \<and> GIsEditor ops (proc s2') then CallEditorInit else CallInit,
        Release SlowTask, InitTimeLogged, BootTiming ''Tick loop starting'', DumpBootTiming]"
  have s3: "trace s3 = pre @ [Activity ''Ticking loop'']"
    using gate shown s2' init_trace [OF init]
    by (simp add: pre_def)
  have pre: "Activity ''Ticking loop'' \<notin> set pre"
    using gate(2) by (auto simp: pre_def startup_events_def preinit_events_def)
  have entered: "tick_loop_entered (trace (fst r)) \<longleftrightarrow> \<not> bIsEmbedded (proc s3)"
  proof (cases "bIsEmbedded (proc s3)")
    case True
    with run_trace [OF run] have "s4 = s3" "left" by simp_all
    then have "\<exists>tail0. trace (fst r) = pre @ Activity ''Ticking loop'' #
        (Bookmark ''Tick loop end'' # tail0)"
      by (simp add: r s3 return_trace finish_trace)
    then obtain tail0 where "trace (fst r) = pre @ Activity ''Ticking loop'' #
        (Bookmark ''Tick loop end'' # tail0)"
      by blast
    with pre True show ?thesis
      by (simp add: entered_after)
  next
    case False
    with run_trace [OF run] obtain k
      where "trace s4 = trace s3 @ tick_events k @ [QueryExit left]"
      by (auto simp: tick_events_def)
    then have "\<exists>tail0. trace (fst r) = pre @ Activity ''Ticking loop'' # (tick_events k @ QueryExit left # tail0)"
      by (cases left) (simp_all add: r s3 return_trace finish_trace)
    then obtain tail0 where
      "trace (fst r) = pre @ Activity ''Ticking loop'' # (tick_events k @ QueryExit left # tail0)"
      by blast
    moreover obtain b' tail0' where "tick_events k @ QueryExit left # tail0 = QueryExit b' # tail0'"
      using tick_events_then_query by blast
    ultimately show ?thesis
      using pre False by (simp add: entered_after)
  qed
  have returns: "snd r = Some ErrorLevel"
    if "bIsEmbedded (proc s3) \<or> (\<exists>N\<le>fuel. GIsRequestingExit ((GEngineLoop_Tick ops ^^ N) (proc s3)))"
  proof -
    have "left"
    proof (cases "bIsEmbedded (proc s3)")
      case True
      with run_trace [OF run] show ?thesis by simp
    next
      case False
      with that obtain N where "N \<le> fuel" "GIsRequestingExit ((GEngineLoop_Tick ops ^^ N) (proc s3))"
        by blast
      then have "snd (tick_loop fuel ops s3)"
        using tick_loop_leaves by blast
      with False run show ?thesis
        by (simp add: GuardedMain_run_def)
    qed
    then show ?thesis
      by (simp add: r return_result)
  qed
  from entered returns show ?thesis by blast
qed

theorem init_failure_does_not_gate_run_witness:
  "snd (GuardedMain_startup 2 demo_cfg (demo_ops 0 5 2) '''' \<lparr>proc = demo_start False, trace = []\<rparr>)
   \<and> fst (EnginePreInit (demo_ops 0 5 2) ''''
        (fst (GuardedMain_startup 2 demo_cfg (demo_ops 0 5 2) '''' \<lparr>proc = demo_start False, trace = []\<rparr>))) = 0
   \<and> fst (GEngineLoop_Init (demo_ops 0 5 2) (demo_start False)) = 5
   \<and> tick_loop_entered (trace (fst (GuardedMain 2 demo_cfg (demo_ops 0 5 2) '''' (demo_start False))))
   \<and> count_list (trace (fst (GuardedMain 2 demo_cfg (demo_ops 0 5 2) '''' (demo_start False)))) CallTick = 2
   \<and> snd (GuardedMain 2 demo_cfg (demo_ops 0 5 2) '''' (demo_start False)) = Some 5"
proof -
  let ?st = "GuardedMain_startup 2 demo_cfg (demo_ops 0 5 2) '''' \<lparr>proc = demo_start False, trace = []\<rparr>"
  let ?pre = "EnginePreInit (demo_ops 0 5 2) '''' (fst ?st)"
  let ?chk = "IsEngineExitRequested (snd ?pre)"
  let ?ini = "GuardedMain_init demo_cfg (demo_ops 0 5 2) (snd ?chk)"
  have s: "snd ?st" by (simp add: demo_simps)
  have p: "fst ?pre = 0" by (simp add: demo_simps)
  have c: "\<not> fst ?chk" by (simp add: demo_simps)
  have i: "fst ?ini = 5" by (simp add: demo_simps)
  have i': "fst (GEngineLoop_Init (demo_ops 0 5 2) (demo_start False)) = 5" by (simp add: demo_simps)
  have emb: "\<not> bIsEmbedded (proc (snd ?ini))" by (simp add: demo_simps)
  have ticks: "count_list (trace (fst (GuardedMain 2 demo_cfg (demo_ops 0 5 2) '''' (demo_start False)))) CallTick = 2"
    by (simp add: demo_simps numeral_2_eq_2)
  have st: "?st = (fst ?st, True)" using s by (simp add: prod_eq_iff)
  have pre: "?pre = (0, snd ?pre)" using p by (simp add: prod_eq_iff)
  have chk: "?chk = (False, snd ?chk)" using c by (simp add: prod_eq_iff)
  have ini: "?ini = (5, snd ?ini)" using i by (simp add: prod_eq_iff)
  have "GIsRequestingExit ((GEngineLoop_Tick (demo_ops 0 5 2) ^^ 2) (proc (snd ?ini)))"
    by (simp add: demo_simps numeral_2_eq_2)
  then have ex: "\<exists>N\<le>2. GIsRequestingExit ((GEngineLoop_Tick (demo_ops 0 5 2) ^^ N) (proc (snd ?ini)))"
    by blast
  from init_failure_does_not_gate_run [OF st pre chk ini] ex show ?thesis
    by (simp add: s p i' emb ticks)
qed

text \<open>
  Claim C4 as first stated says the tick loop is entered after a failed \<open>Init\<close> in
  every run. An embedded run is a counterexample: \<open>PreInit\<close> returns 0, no exit is
  requested, \<open>Init\<close> returns 5, and the update "Ticking loop" is followed at once by the
  bookmark "Tick loop end", with no exit query and no tick between them.
\<close>

theorem init_failure_embedded_counterexample:
  "trace (fst (GuardedMain 3 demo_cfg (demo_ops 0 5 3) '''' (demo_start True))) =
     [Activity ''Starting'', Acquire TaskTagScope, BootTiming ''DefaultMain'',
      PreMainInitBroadcast, Acquire CleanupGuard, MiniDumpFilename, Activity ''Initializing'',
      CallPreInit, QueryExit False, Acquire SlowTask, Progress 80, Progress 100, CallInit,
      Release SlowTask, InitTimeLogged, BootTiming ''Tick loop starting'', DumpBootTiming,
      Activity ''Ticking loop'', Bookmark ''Tick loop end'', Release CleanupGuard,
      Release TaskTagScope]
   \<and> snd (GuardedMain 3 demo_cfg (demo_ops 0 5 3) '''' (demo_start True)) = Some 5
   \<and> \<not> tick_loop_entered (trace (fst (GuardedMain 3 demo_cfg (demo_ops 0 5 3) '''' (demo_start True))))
   \<and> \<not> GIsRequestingExit (proc (fst (GuardedMain 3 demo_cfg (demo_ops 0 5 3) '''' (demo_start True))))"
  by (simp add: demo_simps tick_loop_entered_def)

subsection \<open>The tick loop\<close>

text \<open>
  Claim C5. Let the run phase of a non-embedded engine start in state \<open>s\<close>, and let
  the exit request be unset after each of the first \<open>0, \<dots>, N - 1\<close> ticks and set after
  the \<open>N\<close>-th (for \<open>N = 0\<close>: already set when the loop is reached). Then the loop runs
  exactly \<open>N\<close> iterations and is left: each iteration is one query answered "no" and
  one complete tick, the \<open>N\<close>-th tick's effect is in the final process state, and the
  query after it is answered "yes", so no further tick starts.
\<close>

theorem exit_request_seen_at_loop_boundary:
  assumes "\<not> bIsEmbedded (proc s)"
    and "\<forall>j<N. \<not> GIsRequestingExit ((GEngineLoop_Tick ops ^^ j) (proc s))"
    and "GIsRequestingExit ((GEngineLoop_Tick ops ^^ N) (proc s))"
    and "N \<le> fuel"
  shows "GuardedMain_run fuel ops s =
           (\<lparr>proc = (GEngineLoop_Tick ops ^^ N) (proc s),
             trace = trace s @ concat (replicate N [QueryExit False, CallTick]) @ [QueryExit True]\<rparr>,
            True)"
  using assms by (simp add: GuardedMain_run_def tick_loop_exact)

theorem exit_request_seen_at_loop_boundary_witness:
  "\<not> bIsEmbedded (demo_start False)
   \<and> \<not> GIsRequestingExit (demo_start False)
   \<and> \<not> GIsRequestingExit (GEngineLoop_Tick (demo_ops 0 0 2) (demo_start False))
   \<and> GIsRequestingExit
        (GEngineLoop_Tick (demo_ops 0 0 2) (GEngineLoop_Tick (demo_ops 0 0 2) (demo_start False)))
   \<and> GuardedMain_run 5 (demo_ops 0 0 2) \<lparr>proc = demo_start False, trace = []\<rparr> =
       (\<lparr>proc = \<lparr>GIsRequestingExit = True, bIsEmbedded = False, engine = 2\<rparr>,
         trace = [QueryExit False, CallTick, QueryExit False, CallTick, QueryExit True]\<rparr>, True)"
proof -
  let ?T = "GEngineLoop_Tick (demo_ops 0 0 2)"
  let ?g = "demo_start False"
  have emb: "\<not> bIsEmbedded ?g" by (simp add: demo_start_def)
  have emb': "\<not> bIsEmbedded (proc \<lparr>proc = ?g, trace = []\<rparr>)" by (simp add: demo_start_def)
  have f0: "\<not> GIsRequestingExit ?g" by (simp add: demo_start_def)
  have f1: "\<not> GIsRequestingExit (?T ?g)" by (simp add: demo_ops_def demo_start_def)
  have f2: "GIsRequestingExit (?T (?T ?g))" by (simp add: demo_ops_def demo_start_def)
  have before: "\<forall>j<2. \<not> GIsRequestingExit ((?T ^^ j) (proc \<lparr>proc = ?g, trace = []\<rparr>))"
    using f0 f1 by (simp add: numeral_2_eq_2 less_Suc_eq)
  have at: "GIsRequestingExit ((?T ^^ 2) (proc \<lparr>proc = ?g, trace = []\<rparr>))"
    using f2 by (simp add: numeral_2_eq_2)
  have val: "(?T ^^ 2) ?g = \<lparr>GIsRequestingExit = True, bIsEmbedded = False, engine = 2\<rparr>"
    by (simp add: numeral_2_eq_2 demo_ops_def demo_start_def)
  have rounds: "concat (replicate 2 [QueryExit False, CallTick]) =
      [QueryExit False, CallTick, QueryExit False, CallTick]"
    by (simp add: numeral_2_eq_2)
  from exit_request_seen_at_loop_boundary [OF emb' before at, of 5] show ?thesis
    by (simp add: emb f0 f1 f2 val rounds)
qed

text \<open>
  Claim C6. \<open>PreInit\<close> returns 0 with no exit requested, \<open>Init\<close> returns 0, the engine
  is not embedded, and the loop's query is answered "no" three times and "yes" the
  fourth time. Then the engine ticks exactly three times and the call returns 0.
\<close>

theorem three_checks_three_ticks:
  fixes fuel cfg ops CmdLine g
  defines "r \<equiv> GuardedMain fuel cfg ops CmdLine g"
  assumes startup: "GuardedMain_startup fuel cfg ops CmdLine \<lparr>proc = g, trace = []\<rparr> = (s1, True)"
    and preinit: "EnginePreInit ops CmdLine s1 = (0, s2)"
    and check: "IsEngineExitRequested s2 = (False, s2')"
    and init: "GuardedMain_init cfg ops s2' = (0, s3)"
    and embedded: "\<not> bIsEmbedded (proc s3)"
    and first: "\<not> GIsRequestingExit (proc s3)"
    and second: "\<not> GIsRequestingExit (GEngineLoop_Tick ops (proc s3))"
    and third: "\<not> GIsRequestingExit (GEngineLoop_Tick ops (GEngineLoop_Tick ops (proc s3)))"
    and fourth: "GIsRequestingExit
        (GEngineLoop_Tick ops (GEngineLoop_Tick ops (GEngineLoop_Tick ops (proc s3))))"
    and fuel: "3 \<le> fuel"
  shows "count_list (trace (fst r)) CallTick = 3 \<and> snd r = Some 0"
proof -
  let ?T = "GEngineLoop_Tick ops"
  have before: "\<forall>j<3. \<not> GIsRequestingExit ((?T ^^ j) (proc s3))"
    using first second third by (simp add: numeral_3_eq_3 less_Suc_eq)
  have at: "GIsRequestingExit ((?T ^^ 3) (proc s3))"
    using fourth by (simp add: numeral_3_eq_3)
  from tick_loop_exact [OF before at fuel] embedded
  have run: "GuardedMain_run fuel ops s3 =
      (\<lparr>proc = (?T ^^ 3) (proc s3), trace = trace s3 @ tick_events 3 @ [QueryExit True]\<rparr>, True)"
    by (simp add: GuardedMain_run_def tick_events_def)
  have r: "r = GuardedMain_return ops 0 (GuardedMain_finish cfg ops
      \<lparr>proc = (?T ^^ 3) (proc s3), trace = trace s3 @ tick_events 3 @ [QueryExit True]\<rparr>)"
    using startup preinit check init run by (simp add: r_def GuardedMain_def)
  from startup_passed [OF startup] obtain gate
    where gate: "trace s1 = startup_events cfg gate" "set gate \<subseteq> {SleepPoll, DebugBreak}"
    by (auto simp: startup_events_def)
  from EnginePreInit_trace [OF preinit] obtain shown
    where shown: "trace s2 = trace s1 @ preinit_events shown"
    by blast
  from check have s2': "trace s2' = trace s2 @ [QueryExit False]"
    by (auto simp: IsEngineExitRequested_def)
  have "trace s3 = startup_events cfg gate @ preinit_events shown @ [QueryExit False]
      @ init_events (WITH_EDITOR cfg \<and> GIsEditor ops (proc s2'))"
    using gate shown s2' init_trace [OF init]
    by (simp add: init_events_def)
  with gate(2) show ?thesis
    by (simp add: r return_result finish_trace count_simps)
qed

theorem three_checks_three_ticks_witness:
  "snd (GuardedMain_startup 3 demo_cfg (demo_ops 0 0 3) '''' \<lparr>proc = demo_start False, trace = []\<rparr>)
   \<and> fst (GEngineLoop_PreInit (demo_ops 0 0 3) '''' (demo_start False)) = 0
   \<and> fst (GEngineLoop_Init (demo_ops 0 0 3) (demo_start False)) = 0
   \<and> \<not> bIsEmbedded (demo_start False)
   \<and> count_list (trace (fst (GuardedMain 3 demo_cfg (demo_ops 0 0 3) '''' (demo_start False))))
        (QueryExit True) = 1
   \<and> count_list (trace (fst (GuardedMain 3 demo_cfg (demo_ops 0 0 3) '''' (demo_start False)))) CallTick = 3
   \<and> snd (GuardedMain 3 demo_cfg (demo_ops 0 0 3) '''' (demo_start False)) = Some 0"
proof -
  let ?ops = "demo_ops 0 0 3"
  let ?g = "demo_start False"
  let ?st = "GuardedMain_startup 3 demo_cfg ?ops '''' \<lparr>proc = ?g, trace = []\<rparr>"
  let ?pre = "EnginePreInit ?ops '''' (fst ?st)"
  let ?chk = "IsEngineExitRequested (snd ?pre)"
  let ?ini = "GuardedMain_init demo_cfg ?ops (snd ?chk)"
  let ?T = "GEngineLoop_Tick ?ops"
  have s: "snd ?st" by (simp add: demo_simps)
  have p: "fst ?pre = 0" by (simp add: demo_simps)
  have p': "fst (GEngineLoop_PreInit ?ops '''' ?g) = 0" by (simp add: demo_simps)
  have c: "\<not> fst ?chk" by (simp add: demo_simps)
  have i: "fst ?ini = 0" by (simp add: demo_simps)
  have i': "fst (GEngineLoop_Init ?ops ?g) = 0" by (simp add: demo_simps)
  have emb: "\<not> bIsEmbedded ?g" by (simp add: demo_start_def)
  have g3: "proc (snd ?ini) = ?g" by (simp add: demo_simps)
  have e3: "\<not> bIsEmbedded (proc (snd ?ini))"
    by (simp add: g3) (simp add: demo_start_def)
  have f0: "\<not> GIsRequestingExit (proc (snd ?ini))"
    by (simp add: g3) (simp add: demo_start_def)
  have f1: "\<not> GIsRequestingExit (?T (proc (snd ?ini)))"
    by (simp add: g3) (simp add: demo_start_def demo_ops_def)
  have f2: "\<not> GIsRequestingExit (?T (?T (proc (snd ?ini))))"
    by (simp add: g3) (simp add: demo_start_def demo_ops_def)
  have f3: "GIsRequestingExit (?T (?T (?T (proc (snd ?ini)))))"
    by (simp add: g3) (simp add: demo_start_def demo_ops_def)
  have q: "count_list (trace (fst (GuardedMain 3 demo_cfg ?ops '''' ?g)))
        (QueryExit True) = 1"
    by (simp add: demo_simps numeral_3_eq_3)
  have st: "?st = (fst ?st, True)" using s by (simp add: prod_eq_iff)
  have pre: "?pre = (0, snd ?pre)" using p by (simp add: prod_eq_iff)
  have chk: "?chk = (False, snd ?chk)" using c by (simp add: prod_eq_iff)
  have ini: "?ini = (0, snd ?ini)" using i by (simp add: prod_eq_iff)
  from three_checks_three_ticks [OF st pre chk ini e3 f0 f1 f2 f3] show ?thesis
    by (simp add: s p' i' emb q)
qed

subsection \<open>Progress\<close>

lemma progress_reports_append:
  "progress_reports (xs @ ys) = progress_reports xs @ progress_reports ys"
  by (induction xs rule: progress_reports.induct) auto

lemma progress_reports_gate:
  "set gate \<subseteq> {SleepPoll, DebugBreak} \<Longrightarrow> progress_reports gate = []"
  by (induction gate rule: progress_reports.induct) auto

lemma progress_reports_ticks: "progress_reports (tick_events k) = []"
  by (induction k) (simp_all add: tick_events_def)

lemma progress_reports_preinit: "progress_reports (preinit_events shown) = shown"
  by (induction shown) (simp_all add: preinit_events_def)

lemmas progress_simps =
  return_trace startup_events_def init_events_def finish_events_def return_events_def
  progress_reports_append progress_reports_gate progress_reports_ticks progress_reports_preinit

text \<open>
  The law of the progress accountant, for any amount of work entered: the percentage
  never goes back and never passes 100, and the budget is never overdrawn.
\<close>

lemma EnterProgressFrame_law:
  assumes "CompletedWork t \<le> TotalAmountOfWork t"
    and "EnterProgressFrame w (t, s) = (t', s')"
  shows "percent_done t \<le> percent_done t' \<and> percent_done t' \<le> 100
       \<and> CompletedWork t' \<le> TotalAmountOfWork t'
       \<and> trace s' = trace s @ [Progress (percent_done t')]"
proof -
  from assms(2) have t': "t' = t\<lparr>CompletedWork := min (TotalAmountOfWork t) (CompletedWork t + w)\<rparr>"
    and s': "s' = emit (Progress (percent_done t')) s"
    by (auto simp: EnterProgressFrame_def Let_def)
  have le: "CompletedWork t \<le> CompletedWork t'" "CompletedWork t' \<le> TotalAmountOfWork t'"
    "TotalAmountOfWork t' = TotalAmountOfWork t"
    using assms(1) by (simp_all add: t')
  have "percent_done t \<le> percent_done t'"
    using le by (simp add: percent_done_def div_le_mono)
  moreover have "percent_done t' \<le> 100"
  proof -
    have "CompletedWork t' * 100 div TotalAmountOfWork t'
        \<le> TotalAmountOfWork t' * 100 div TotalAmountOfWork t'"
      using le(2) by (intro div_le_mono) simp
    also have "\<dots> \<le> 100" by simp
    finally show ?thesis by (simp add: percent_done_def)
  qed
  ultimately show ?thesis using le s' by simp
qed

lemma sorted_handover:
  "sorted shown \<Longrightarrow> \<forall>p\<in>set shown. p \<le> (80::nat) \<Longrightarrow>
     sorted (shown @ [80, 100]) \<and> list_all (\<lambda>p. p \<le> 100) (shown @ [80, 100])
     \<and> list_all (\<lambda>p. p \<le> 100) shown"
  by (auto simp: sorted_append list_all_iff)

text \<open>
  Claim C7. In every run the percentages shown during the boot never decrease and
  never exceed 100: first those of \<open>PreInit\<close>'s own slow task, which stay within its 80
  units, then the 80 that the sequencer's slow task enters at once for them, so that
  nothing goes back at the hand-over, then 100 with the share of \<open>Init\<close>.
\<close>

theorem progress_monotone_and_bounded:
  "sorted (progress_reports (trace (fst (GuardedMain fuel cfg ops CmdLine g))))
   \<and> list_all (\<lambda>p. p \<le> 100) (progress_reports (trace (fst (GuardedMain fuel cfg ops CmdLine g))))"
proof (cases rule: GuardedMain_traces [of fuel cfg ops CmdLine g])
  case (waiting gate)
  then have "set gate \<subseteq> {SleepPoll, DebugBreak}" by auto
  with waiting show ?thesis
    by (simp add: progress_reports_append progress_reports_gate)
next
  case (preinit_failed gate shown e s')
  with sorted_handover [of shown] show ?thesis
    by (simp add: progress_simps)
next
  case (exit_requested gate shown s')
  with sorted_handover [of shown] show ?thesis
    by (simp add: progress_simps)
next
  case (ticking gate shown ed)
  with sorted_handover [of shown] show ?thesis
    by (simp add: progress_simps)
next
  case (loop_skipped gate shown e ed ed' s')
  with sorted_handover [of shown] show ?thesis
    by (simp add: progress_simps)
next
  case (loop_left gate shown e ed k ed' s')
  with sorted_handover [of shown] show ?thesis
    by (simp add: progress_simps)
qed

theorem progress_monotone_and_bounded_witness:
  "progress_reports (trace (fst (GuardedMain (Suc 0) demo_cfg reporting_ops '''' (demo_start False))))
     = [30, 80, 80, 80, 100]
   \<and> sorted (progress_reports
        (trace (fst (GuardedMain (Suc 0) demo_cfg reporting_ops '''' (demo_start False)))))
   \<and> list_all (\<lambda>p. p \<le> 100) (progress_reports
        (trace (fst (GuardedMain (Suc 0) demo_cfg reporting_ops '''' (demo_start False)))))"
proof -
  have "progress_reports
      (trace (fst (GuardedMain (Suc 0) demo_cfg reporting_ops '''' (demo_start False))))
     = [30, 80, 80, 80, 100]"
    by (simp add: demo_simps reporting_ops_def)
  with progress_monotone_and_bounded
    [of "Suc 0" demo_cfg reporting_ops "''''" "demo_start False"]
  show ?thesis by blast
qed

subsection \<open>Scoped objects\<close>










subsection \<open>The pre-main broadcast\<close>




subsection \<open>EngineExit\<close>

text \<open>
  Claim C10 as first stated says the exit request is set after every shutdown the
  controller drives. \<open>EngineExit\<close> sets it before it calls \<open>GEngineLoop.Exit\<close>, but what
  the flag is afterwards is up to that call. With an engine whose \<open>Exit\<close> withdraws the
  request, a run that was not embedded, requested no exit and failed in \<open>PreInit\<close>
  returns with \<open>GEngineLoop.Exit\<close> called once and the flag unset.
\<close>

theorem exit_request_after_shutdown_counterexample:
  "\<not> bIsEmbedded (demo_start False)
   \<and> snd (GuardedMain 0 demo_cfg forgetful_ops '''' (demo_start False)) = Some 7
   \<and> count_list (trace (fst (GuardedMain 0 demo_cfg forgetful_ops '''' (demo_start False))))
        CallExit = 1
   \<and> \<not> GIsRequestingExit (proc (fst (GuardedMain 0 demo_cfg forgetful_ops '''' (demo_start False))))"
  by (simp add: demo_simps forgetful_ops_def)

text \<open>
  Claim C10, as amended. \<open>EngineExit\<close> requests exit and then calls \<open>GEngineLoop.Exit\<close>,
  which so starts from a process whose exit flag is set. When \<open>GEngineLoop.Exit\<close> keeps
  a pending request, the flag is set after \<open>EngineExit\<close>, and it is set at the end of
  every run of \<open>GuardedMain\<close> in which the exit phase was invoked, whether or not exit
  had been requested before.
\<close>

theorem EngineExit_requests_exit_first:
  fixes fuel cfg ops CmdLine g
  defines "r \<equiv> GuardedMain fuel cfg ops CmdLine g"
  shows "trace (EngineExit ops s) =
           trace s @ [CallRequestExit ''EngineExit() was called'', CallExit]
       \<and> proc (EngineExit ops s) = GEngineLoop_Exit ops ((proc s)\<lparr>GIsRequestingExit := True\<rparr>)
       \<and> (keeps_exit_request (GEngineLoop_Exit ops) \<longrightarrow>
            GIsRequestingExit (proc (EngineExit ops s)))
       \<and> (keeps_exit_request (GEngineLoop_Exit ops) \<and> 0 < count_list (trace (fst r)) CallExit \<longrightarrow>
            GIsRequestingExit (proc (fst r)))"
proof -
  have order: "trace (EngineExit ops s) =
      trace s @ [CallRequestExit ''EngineExit() was called'', CallExit]"
    by (rule EngineExit_trace)
  have state: "proc (EngineExit ops s) = GEngineLoop_Exit ops ((proc s)\<lparr>GIsRequestingExit := True\<rparr>)"
    by (simp add: EngineExit_def RequestEngineExit_def)
  have after: "GIsRequestingExit (proc (EngineExit ops s))"
    if "keeps_exit_request (GEngineLoop_Exit ops)"
    using that by (simp add: state keeps_exit_request_def)
  have at_return: "GIsRequestingExit (proc (fst (GuardedMain_return ops e s')))"
    if "keeps_exit_request (GEngineLoop_Exit ops)" "count_list (trace s') CallExit = 0"
      "0 < count_list (trace (fst (GuardedMain_return ops e s'))) CallExit" for e s'
  proof -
    from that(2,3) have "\<not> bIsEmbedded (proc s')"
      by (auto simp: return_trace return_events_def split: if_splits)
    with that(1) show ?thesis
      by (simp add: return_proc keeps_exit_request_def)
  qed
  have shutdown: "GIsRequestingExit (proc (fst r))"
    if keeps: "keeps_exit_request (GEngineLoop_Exit ops)"
      and called: "0 < count_list (trace (fst r)) CallExit"
  proof (cases rule: GuardedMain_traces [of fuel cfg ops CmdLine g])
    case (waiting gate)
    then have "count_list (trace (fst r)) CallExit = 0"
      by (simp add: r_def count_list_outside [of gate "{SleepPoll}"])
    with called show ?thesis by simp
  next
    case (preinit_failed gate shown e s')
    then have "count_list (trace s') CallExit = 0"
      by (simp add: count_simps)
    from at_return [OF keeps this, of e] called preinit_failed(2) show ?thesis
      by (simp add: r_def)
  next
    case (exit_requested gate shown s')
    then have "count_list (trace s') CallExit = 0"
      by (simp add: count_simps)
    from at_return [OF keeps this, of 0] called exit_requested(2) show ?thesis
      by (simp add: r_def)
  next
    case (ticking gate shown ed)
    then have "count_list (trace (fst r)) CallExit = 0"
      by (simp add: r_def count_simps)
    with called show ?thesis by simp
  next
    case (loop_skipped gate shown e ed ed' s')
    then have "count_list (trace s') CallExit = 0"
      by (simp add: count_simps)
    from at_return [OF keeps this, of e] called loop_skipped(2) show ?thesis
      by (simp add: r_def)
  next
    case (loop_left gate shown e ed k ed' s')
    then have "count_list (trace s') CallExit = 0"
      by (simp add: count_simps)
    from at_return [OF keeps this, of e] called loop_left(2) show ?thesis
      by (simp add: r_def)
  qed
  from order state after shutdown show ?thesis by blast
qed

theorem EngineExit_requests_exit_first_witness:
  "keeps_exit_request (GEngineLoop_Exit (demo_ops 7 0 3))
   \<and> \<not> GIsRequestingExit (demo_start False)
   \<and> snd (GuardedMain 0 demo_cfg (demo_ops 7 0 3) '''' (demo_start False)) = Some 7
   \<and> count_list (trace (fst (GuardedMain 0 demo_cfg (demo_ops 7 0 3) '''' (demo_start False))))
        CallTick = 0
   \<and> count_list (trace (fst (GuardedMain 0 demo_cfg (demo_ops 7 0 3) '''' (demo_start False))))
        CallExit = 1
   \<and> GIsRequestingExit (proc (fst (GuardedMain 0 demo_cfg (demo_ops 7 0 3) '''' (demo_start False))))
   \<and> GIsRequestingExit (proc (EngineExit (demo_ops 7 0 3) \<lparr>proc = demo_start False, trace = []\<rparr>))"
proof -
  let ?r = "GuardedMain 0 demo_cfg (demo_ops 7 0 3) '''' (demo_start False)"
  have keeps: "keeps_exit_request (GEngineLoop_Exit (demo_ops 7 0 3))"
    by (simp add: keeps_exit_request_def demo_ops_def)
  have f0: "\<not> GIsRequestingExit (demo_start False)" by (simp add: demo_start_def)
  have res: "snd ?r = Some 7" by (simp add: demo_simps)
  have ticks: "count_list (trace (fst ?r)) CallTick = 0" by (simp add: demo_simps)
  have exits: "count_list (trace (fst ?r)) CallExit = 1" by (simp add: demo_simps)
  note inst = EngineExit_requests_exit_first [of "demo_ops 7 0 3"
      "\<lparr>proc = demo_start False, trace = []\<rparr>" 0 demo_cfg "''''" "demo_start False"]
  from inst keeps
  have a: "GIsRequestingExit (proc (EngineExit (demo_ops 7 0 3) \<lparr>proc = demo_start False, trace = []\<rparr>))"
    by blast
  from exits have "0 < count_list (trace (fst ?r)) CallExit" by simp
  with inst keeps have b: "GIsRequestingExit (proc (fst ?r))"
    by blast
  from keeps f0 res ticks exits a b show ?thesis
    by (intro conjI)
qed

end
